theory Spec2Isabelle
  imports Main
begin

section \<open>Text and the character classes of the regular expressions\<close>

text \<open>
  A Python \<open>str\<close> is a sequence of code points. The model reads a \<^typ>\<open>string\<close> as such
  a sequence, one \<^typ>\<open>char\<close> per code point, which covers the code points U+0000 to
  U+00FF. On these, the classes that \<open>tullkod_model.py\<close> relies on are:
  \<^item> \<open>\d\<close> (a decimal digit): \<open>0\<close> to \<open>9\<close>;
  \<^item> \<open>\w\<close> (a word character, which is what \<open>\b\<close> looks at): the ASCII letters, digits
    and the underscore, and the Latin-1 letters and numeric characters;
  \<^item> \<open>str.isdigit\<close>: \<open>0\<close> to \<open>9\<close> and the superscripts one, two and three.
\<close>

definition is_digit :: "char \<Rightarrow> bool" where
  "is_digit c = (let n = (of_char c :: nat) in 48 \<le> n \<and> n \<le> 57)"

definition is_word :: "char \<Rightarrow> bool" where
  "is_word c =
     (let n = (of_char c :: nat) in
        (48 \<le> n \<and> n \<le> 57) \<or> (65 \<le> n \<and> n \<le> 90) \<or> n = 95 \<or> (97 \<le> n \<and> n \<le> 122) \<or>
        n = 170 \<or> n = 178 \<or> n = 179 \<or> n = 181 \<or> n = 185 \<or> n = 186 \<or>
        (188 \<le> n \<and> n \<le> 190) \<or> (192 \<le> n \<and> n \<le> 214) \<or> (216 \<le> n \<and> n \<le> 246) \<or>
        248 \<le> n)"

definition char_isdigit :: "char \<Rightarrow> bool" where
  "char_isdigit c =
     (let n = (of_char c :: nat) in (48 \<le> n \<and> n \<le> 57) \<or> n = 178 \<or> n = 179 \<or> n = 185)"

text \<open>\<open>s.isdigit()\<close>: the string is not empty and every character of it is a digit.\<close>

definition str_isdigit :: "string \<Rightarrow> bool" where
  "str_isdigit s = (s \<noteq> [] \<and> list_all char_isdigit s)"

text \<open>\<open>re.sub(r"\D+", "", text)\<close>: every run of non-digits is deleted, the digits stay in order.\<close>

definition sub_nondigits :: "string \<Rightarrow> string" where
  "sub_nondigits s = filter is_digit s"

text \<open>
  \<open>\b\<close> at position \<open>i\<close> of \<open>s\<close>: exactly one of the character before and the character
  at \<open>i\<close> is a word character, where the outside of the string counts as a non-word
  character; the empty string has no boundary.
\<close>

definition at_boundary :: "string \<Rightarrow> nat \<Rightarrow> bool" where
  "at_boundary s i =
     (s \<noteq> [] \<and> ((0 < i \<and> is_word (s ! (i - 1))) \<noteq> (i < length s \<and> is_word (s ! i))))"

text \<open>The pattern \<open>\b\d{10}\b\<close> matches at start position \<open>i\<close>.\<close>

definition match_at :: "string \<Rightarrow> nat \<Rightarrow> bool" where
  "match_at s i =
     (at_boundary s i \<and> i + 10 \<le> length s \<and> list_all is_digit (take 10 (drop i s)) \<and>
      at_boundary s (i + 10))"

text \<open>
  \<open>re.search(r"\b\d{10}\b", text)\<close> tries the start positions \<open>0, 1, ..., len(text)\<close> in
  this order and stops at the first one where the pattern matches; \<open>m.group(0)\<close> is the
  matched text.
\<close>

definition search_10 :: "string \<Rightarrow> string option" where
  "search_10 s =
     (case find (match_at s) [0..<Suc (length s)] of
        None \<Rightarrow> None
      | Some i \<Rightarrow> Some (take 10 (drop i s)))"

section \<open>Code normalization\<close>

text \<open>
  \<open>normalize_code(text: Optional[str]) -> str\<close>. The argument \<open>None\<close> of Python is
  \<^term>\<open>None\<close>. The loop over \<open>(10, 8, 6, 4, 2)\<close> returns at the first length that is equal
  to \<open>len(digits)\<close>.
\<close>

definition normalize_code :: "string option \<Rightarrow> string" where
  "normalize_code text =
     (case text of
        None \<Rightarrow> ''UNKNOWN''
      | Some t \<Rightarrow>
          if t = [] then ''UNKNOWN''
          else
            let digits = sub_nondigits t in
            if digits = [] then ''UNKNOWN''
            else
              (case find (\<lambda>k. length digits = k) [10, 8, 6, 4, 2] of
                 Some k \<Rightarrow> digits
               | None \<Rightarrow>
                   (case search_10 t of
                      Some m \<Rightarrow> m
                    | None \<Rightarrow>
                        if str_isdigit digits \<and> length digits \<le> 12 then digits
                        else ''UNKNOWN'')))"


subsection \<open>Runs of ten digits, as the specification words them\<close>

text \<open>
  A contiguous run of exactly ten digits of \<open>s\<close> that starts at position \<open>i\<close> and is
  bounded on each side by a non-digit character or by the end of the string.
\<close>

definition digit_run_at :: "string \<Rightarrow> nat \<Rightarrow> bool" where
  "digit_run_at s i =
     (i + 10 \<le> length s \<and> list_all is_digit (take 10 (drop i s)) \<and>
      (i = 0 \<or> \<not> is_digit (s ! (i - 1))) \<and>
      (i + 10 = length s \<or> \<not> is_digit (s ! (i + 10))))"


text \<open>
  The same with the bounds that \<open>\b\<close> asks for: on each side a non-word character (neither
  a letter, nor a digit, nor the underscore) or the end of the string.
\<close>

definition word_run_at :: "string \<Rightarrow> nat \<Rightarrow> bool" where
  "word_run_at s i =
     (i + 10 \<le> length s \<and> list_all is_digit (take 10 (drop i s)) \<and>
      (i = 0 \<or> \<not> is_word (s ! (i - 1))) \<and>
      (i + 10 = length s \<or> \<not> is_word (s ! (i + 10))))"

section \<open>The classification chain\<close>

text \<open>
  \<open>classification_chain = prompt | llm | parser\<close>. The prompt template fills the system
  text and the user text from the dictionary given to \<open>invoke\<close>; the completion service
  answers with a text or raises. The service is a parameter \<open>llm\<close> of the model, a function
  from the two messages to an exception \<open>Inl e\<close> or to the reply \<open>Inr raw\<close>. The reference
  document \<open>taric_30.json\<close>, serialised as \<open>taric_text\<close>, is a parameter as well.
\<close>

record chain_input =
  json :: string
  name :: string
  desc :: string
  composition :: string

record chat_prompt =
  system :: string
  user :: string

definition system_prompt :: string where
  "system_prompt =
     ''\<newline>'' @
     ''You are a customs classification assistant.\<newline>'' @
     ''\<newline>'' @
     ''You are given:\<newline>'' @
     ''1) The Swedish TARIC/HS classification hierarchy for Chapter 30 (pharmaceutical products) as JSON.\<newline>'' @
     ''2) A product name.\<newline>'' @
     ''3) A product description (Swedish).\<newline>'' @
     ''4) A list of substance names / composition.\<newline>'' @
     ''\<newline>'' @
     ''Task:\<newline>'' @
     ''- Identify the most specific correct TARIC code (`code`) from the JSON that matches the product.\<newline>'' @
     ''- Use ONLY the JSON to decide (do not invent codes).\<newline>'' @
     ''- Prefer a 10-digit TARIC code when possible.\<newline>'' @
     ''- If the JSON does not contain a 10-digit match, return the closest most specific code found in the JSON\<newline>'' @
     ''  (prefer 10 digits; otherwise 8, 6, 4, 2).\<newline>'' @
     ''- If the product cannot be classified within Chapter 30, return: UNKNOWN.\<newline>'' @
     ''- Important: Never output descriptions or explanations, just the code (or UNKNOWN).\<newline>''"

text \<open>The user message; the character of code 228 is the a-umlaut of the last label.\<close>

definition user_message :: "chain_input \<Rightarrow> string" where
  "user_message d =
     ''JSON:\<newline>'' @ json d @ ''\<newline>\<newline>'' @
     ''Produktnamn: '' @ name d @ ''\<newline>'' @
     ''Produktbeskrivning: '' @ desc d @ ''\<newline>'' @
     ''Produktsammans'' @ [char_of (228::nat)] @ ''ttning / substanser: '' @ composition d"

definition classification_chain ::
  "(chat_prompt \<Rightarrow> 'e + string) \<Rightarrow> chain_input \<Rightarrow> 'e + string" where
  "classification_chain llm d = llm \<lparr>system = system_prompt, user = user_message d\<rparr>"

text \<open>\<open>x or ""\<close>: the empty string when \<open>x\<close> is \<open>None\<close> or empty, else \<open>x\<close>.\<close>

definition or_empty :: "string option \<Rightarrow> string" where
  "or_empty x = (case x of None \<Rightarrow> [] | Some s \<Rightarrow> if s = [] then [] else s)"

text \<open>
  \<open>classify_product\<close>: one call of the chain, whose exception (if any) is not caught, then
  the normalization of the reply.
\<close>

definition classify_product ::
  "(chat_prompt \<Rightarrow> 'e + string) \<Rightarrow> string \<Rightarrow> string option \<Rightarrow> string option \<Rightarrow> string option
     \<Rightarrow> 'e + string" where
  "classify_product llm taric_text product_name product_description substances =
     (case classification_chain llm
             \<lparr>json = taric_text, name = or_empty product_name,
              desc = or_empty product_description, composition = or_empty substances\<rparr> of
        Inl e \<Rightarrow> Inl e
      | Inr raw \<Rightarrow> Inr (normalize_code (Some raw)))"

section \<open>Batch classification of a table\<close>

text \<open>
  A cell of the table read from a spreadsheet is a text, the missing value \<open>NaN\<close> of an
  empty spreadsheet cell, or \<open>None\<close>; \<open>str(...)\<close> of them is the text itself, \<open>nan\<close> and
  \<open>None\<close>. Numeric cells are not part of the model. A row maps column names to cells,
  and \<open>row.get(col, "")\<close> is the cell, or the empty text when the row has no such column.
\<close>

datatype cell = CStr string | CNaN | CNone

fun py_str :: "cell \<Rightarrow> string" where
  "py_str (CStr s) = s"
| "py_str CNaN = ''nan''"
| "py_str CNone = ''None''"

type_synonym row = "string \<rightharpoonup> cell"

definition row_get :: "row \<Rightarrow> string \<Rightarrow> cell" where
  "row_get r col = (case r col of None \<Rightarrow> CStr [] | Some v \<Rightarrow> v)"

record dataframe =
  columns :: "string list"
  rows :: "row list"

text \<open>The inner function \<open>_classify_row\<close> of \<open>add_tullkod_column\<close>.\<close>

definition classify_row ::
  "(chat_prompt \<Rightarrow> 'e + string) \<Rightarrow> string \<Rightarrow> string \<Rightarrow> string \<Rightarrow> string \<Rightarrow> row
     \<Rightarrow> 'e + string" where
  "classify_row llm taric_text name_col desc_col comp_col r =
     classify_product llm taric_text
       (Some (py_str (row_get r name_col)))
       (Some (py_str (row_get r desc_col)))
       (Some (py_str (row_get r comp_col)))"

text \<open>
  \<open>df.apply(f, axis=1)\<close> on a table with at least one row: \<open>f\<close> is called on the rows from
  the first to the last, and the first exception that a call raises ends the whole
  \<open>apply\<close>. (On a table without rows pandas probes \<open>f\<close> on a made-up row instead; the
  application never passes such a table, and the theorems below are about tables with at
  least one row.)
\<close>

fun apply_rows :: "('r \<Rightarrow> 'e + 'a) \<Rightarrow> 'r list \<Rightarrow> 'e + 'a list" where
  "apply_rows f [] = Inr []"
| "apply_rows f (r # rs) =
     (case f r of
        Inl e \<Rightarrow> Inl e
      | Inr v \<Rightarrow> (case apply_rows f rs of Inl e \<Rightarrow> Inl e | Inr vs \<Rightarrow> Inr (v # vs)))"

text \<open>
  \<open>df[col] = values\<close>: an existing column of this name is overwritten in place, else the
  column is added after the last one; each row gets its own value.
\<close>

definition set_column :: "dataframe \<Rightarrow> string \<Rightarrow> string list \<Rightarrow> dataframe" where
  "set_column df col vs =
     \<lparr>columns = (if col \<in> set (columns df) then columns df else columns df @ [col]),
      rows = map (\<lambda>(r, v). r(col \<mapsto> CStr v)) (zip (rows df) vs)\<rparr>"

text \<open>
  \<open>add_tullkod_column\<close> changes the table it is given and returns it; the model returns
  the changed table, or the exception that left \<open>apply\<close>, in which case the assignment
  has not happened.
\<close>

definition add_tullkod_column ::
  "(chat_prompt \<Rightarrow> 'e + string) \<Rightarrow> string \<Rightarrow> dataframe \<Rightarrow> string \<Rightarrow> string \<Rightarrow> string \<Rightarrow> string
     \<Rightarrow> 'e + dataframe" where
  "add_tullkod_column llm taric_text df name_col desc_col comp_col output_col =
     (case apply_rows (classify_row llm taric_text name_col desc_col comp_col) (rows df) of
        Inl e \<Rightarrow> Inl e
      | Inr codes \<Rightarrow> Inr (set_column df output_col codes))"

subsection \<open>An example table and an example service\<close>

text \<open>
  Three products \<open>A\<close>, \<open>B\<close> and \<open>C\<close>, and a service that fails on the request for the
  product \<open>B\<close> and answers every other request with a ten-digit code.
\<close>

definition example_service :: "chat_prompt \<Rightarrow> unit + string" where
  "example_service p =
     (if user p = user_message \<lparr>json = ''{}'', name = ''B'', desc = [], composition = []\<rparr>
      then Inl () else Inr ''3004909099'')"

definition example_frame :: dataframe where
  "example_frame =
     \<lparr>columns = [''Name''],
      rows = [[''Name'' \<mapsto> CStr ''A''], [''Name'' \<mapsto> CStr ''B''], [''Name'' \<mapsto> CStr ''C'']]\<rparr>"


section \<open>Auxiliary facts\<close>

lemma is_digit_is_word: "is_digit c \<Longrightarrow> is_word c"
  by (auto simp: is_digit_def is_word_def Let_def)

lemma is_digit_char_isdigit: "is_digit c \<Longrightarrow> char_isdigit c"
  by (auto simp: is_digit_def char_isdigit_def Let_def)

lemma sub_nondigits_digits: "list_all is_digit (sub_nondigits s)"
  by (simp add: sub_nondigits_def list_all_iff)

lemma sub_nondigits_id: "list_all is_digit s \<Longrightarrow> sub_nondigits s = s"
  by (simp add: sub_nondigits_def list_all_iff)

lemma str_isdigit_digits: "s \<noteq> [] \<Longrightarrow> list_all is_digit s \<Longrightarrow> str_isdigit s"
  by (auto simp: str_isdigit_def list_all_iff is_digit_char_isdigit)

lemma find_lengths:
  "(find (\<lambda>k. n = k) [10, 8, 6, 4, 2] = None) = (n \<notin> {2, 4, 6, 8, 10::nat})"
  by auto

lemma match_at_bound: "match_at s i \<Longrightarrow> i < Suc (length s)"
  by (simp add: match_at_def)

lemma search_10_Some:
  assumes "search_10 s = Some m"
  shows "\<exists>i. match_at s i \<and> (\<forall>j<i. \<not> match_at s j) \<and> m = take 10 (drop i s)"
proof -
  from assms obtain i where f: "find (match_at s) [0..<Suc (length s)] = Some i"
    and m: "m = take 10 (drop i s)"
    by (auto simp: search_10_def split: option.splits)
  from f obtain k where k: "k < length [0..<Suc (length s)]" "match_at s ([0..<Suc (length s)] ! k)"
    "i = [0..<Suc (length s)] ! k" "\<forall>j<k. \<not> match_at s ([0..<Suc (length s)] ! j)"
    unfolding find_Some_iff by blast
  from k have ik: "i = k" by (metis add_0 length_upt minus_nat.diff_0 nth_upt)
  have "\<forall>j<i. \<not> match_at s j"
  proof (intro allI impI)
    fix j assume "j < i"
    with k ik have "j < k" "j < Suc (length s)" by auto
    with k(4) show "\<not> match_at s j"
      by (metis add_0 nth_upt)
  qed
  with k m ik show ?thesis by auto
qed

lemma search_10_None: "(search_10 s = None) = (\<forall>i. \<not> match_at s i)"
proof
  assume "search_10 s = None"
  then have "find (match_at s) [0..<Suc (length s)] = None"
    by (auto simp: search_10_def split: option.splits)
  then have a: "\<not> (\<exists>i. i \<in> set [0..<Suc (length s)] \<and> match_at s i)"
    by (metis find_None_iff)
  show "\<forall>i. \<not> match_at s i"
  proof (intro allI notI)
    fix i assume m: "match_at s i"
    then have "i \<in> set [0..<Suc (length s)]"
      using match_at_bound [of s i] by (simp only: set_upt atLeastLessThan_iff) simp
    with a m show False by blast
  qed
next
  assume "\<forall>i. \<not> match_at s i"
  then have "find (match_at s) [0..<Suc (length s)] = None"
    by (metis find_None_iff)
  then show "search_10 s = None"
    by (simp only: search_10_def option.case)
qed

lemma match_at_digits:
  "match_at s i \<Longrightarrow> length (take 10 (drop i s)) = 10 \<and> list_all is_digit (take 10 (drop i s))"
  by (auto simp: match_at_def)

lemma run_nth:
  assumes "i + 10 \<le> length s" "list_all is_digit (take 10 (drop i s))" "k < 10"
  shows "is_digit (s ! (i + k))"
proof -
  from assms have "k < length (take 10 (drop i s))" by simp
  with assms(2) have "is_digit (take 10 (drop i s) ! k)"
    by (simp add: list_all_length)
  with assms show ?thesis by simp
qed

lemma match_at_word_run: "match_at s i = word_run_at s i"
proof -
  {
    assume b: "i + 10 \<le> length s" and d: "list_all is_digit (take 10 (drop i s))"
    from run_nth [OF b d, of 0] have f: "is_word (s ! i)" by (simp add: is_digit_is_word)
    from run_nth [OF b d, of 9] have l: "is_word (s ! (i + 10 - 1))"
      by (simp add: is_digit_is_word add.commute)
    from b have ne: "s \<noteq> []" by auto
    have "at_boundary s i = (i = 0 \<or> \<not> is_word (s ! (i - 1)))"
      using b f ne by (auto simp: at_boundary_def)
    moreover have "at_boundary s (i + 10) = (i + 10 = length s \<or> \<not> is_word (s ! (i + 10)))"
      using b l ne by (auto simp: at_boundary_def)
    ultimately have "match_at s i = word_run_at s i"
      using b d by (simp add: match_at_def word_run_at_def)
  }
  then show ?thesis
    by (auto simp: match_at_def word_run_at_def)
qed


lemma all_digits_no_match:
  assumes "list_all is_digit d" "length d \<noteq> 10"
  shows "\<not> match_at d i"
proof
  assume "match_at d i"
  then have w: "word_run_at d i" by (simp add: match_at_word_run)
  then have b: "i + 10 \<le> length d" by (simp add: word_run_at_def)
  have all: "\<And>k. k < length d \<Longrightarrow> is_word (d ! k)"
    using assms(1) by (simp add: list_all_length is_digit_is_word)
  have "i = 0"
  proof (rule ccontr)
    assume "i \<noteq> 0"
    with b have "i - 1 < length d" by simp
    then have "is_word (d ! (i - 1))" by (rule all)
    with w \<open>i \<noteq> 0\<close> show False by (simp add: word_run_at_def)
  qed
  moreover have "i + 10 = length d"
  proof (rule ccontr)
    assume "i + 10 \<noteq> length d"
    with b have "i + 10 < length d" by simp
    then have "is_word (d ! (i + 10))" by (rule all)
    with w \<open>i + 10 \<noteq> length d\<close> show False by (simp add: word_run_at_def)
  qed
  ultimately show False using assms(2) by simp
qed

lemma normalize_code_Some:
  assumes "sub_nondigits t \<noteq> []"
  shows "normalize_code (Some t) =
     (if length (sub_nondigits t) \<in> {2, 4, 6, 8, 10} then sub_nondigits t
      else case search_10 t of
             Some m \<Rightarrow> m
           | None \<Rightarrow> if length (sub_nondigits t) \<le> 12 then sub_nondigits t else ''UNKNOWN'')"
proof -
  from assms have t: "t \<noteq> []" by (auto simp: sub_nondigits_def)
  have sd: "str_isdigit (sub_nondigits t)"
    using assms by (simp add: str_isdigit_digits sub_nondigits_digits)
  show ?thesis
  proof (cases "length (sub_nondigits t) \<in> {2, 4, 6, 8, 10}")
    case True
    then have "find (\<lambda>k. length (sub_nondigits t) = k) [10, 8, 6, 4, 2] \<noteq> None"
      by (simp only: find_lengths) simp
    then show ?thesis using True t assms
      by (auto simp: normalize_code_def Let_def simp del: find.simps)
  next
    case False
    then have "find (\<lambda>k. length (sub_nondigits t) = k) [10, 8, 6, 4, 2] = None"
      by (simp only: find_lengths) simp
    then show ?thesis using False t assms sd
      by (simp add: normalize_code_def Let_def del: find.simps)
  qed
qed

lemma normalize_code_digits:
  assumes "d \<noteq> []" "list_all is_digit d" "length d \<le> 12"
  shows "normalize_code (Some d) = d"
proof -
  have s: "sub_nondigits d = d" using assms(2) by (rule sub_nondigits_id)
  show ?thesis
  proof (cases "length d = 10")
    case True
    then show ?thesis using assms s by (simp add: normalize_code_Some)
  next
    case False
    then have "search_10 d = None"
      using assms(2) by (simp add: search_10_None all_digits_no_match)
    then show ?thesis using assms s by (simp add: normalize_code_Some)
  qed
qed

lemma normalize_code_shape:
  "normalize_code x = ''UNKNOWN'' \<or>
   (normalize_code x \<noteq> [] \<and> list_all is_digit (normalize_code x) \<and> length (normalize_code x) \<le> 12)"
proof (cases x)
  case None
  then show ?thesis by (simp add: normalize_code_def)
next
  case (Some t)
  show ?thesis
  proof (cases "sub_nondigits t = []")
    case True
    then show ?thesis using Some by (simp add: normalize_code_def)
  next
    case False
    note ne = this
    show ?thesis
    proof (cases "search_10 t")
      case None
      then show ?thesis using Some ne sub_nondigits_digits [of t]
        by (auto simp: normalize_code_Some)
    next
      case (Some m)
      then obtain i where "match_at t i" "m = take 10 (drop i t)"
        using search_10_Some by blast
      then have "length m = 10" "list_all is_digit m"
        using match_at_digits by auto
      then show ?thesis using \<open>x = Some t\<close> Some ne sub_nondigits_digits [of t]
        by (auto simp: normalize_code_Some)
    qed
  qed
qed


lemma apply_rows_Inl:
  "(apply_rows f rs = Inl e) =
   (\<exists>i<length rs. f (rs ! i) = Inl e \<and> (\<forall>j<i. \<exists>v. f (rs ! j) = Inr v))"
proof (induction rs)
  case Nil
  show ?case by simp
next
  case (Cons r rs)
  show ?case
  proof (cases "f r")
    case (Inl e')
    show ?thesis
    proof
      assume "apply_rows f (r # rs) = Inl e"
      with Inl have "e' = e" by simp
      with Inl show "\<exists>i<length (r # rs). f ((r # rs) ! i) = Inl e \<and> (\<forall>j<i. \<exists>v. f ((r # rs) ! j) = Inr v)"
        by (intro exI [of _ 0]) simp
    next
      assume "\<exists>i<length (r # rs). f ((r # rs) ! i) = Inl e \<and> (\<forall>j<i. \<exists>v. f ((r # rs) ! j) = Inr v)"
      then obtain i where i: "i < length (r # rs)" "f ((r # rs) ! i) = Inl e"
        "\<forall>j<i. \<exists>v. f ((r # rs) ! j) = Inr v" by blast
      have "i = 0"
      proof (rule ccontr)
        assume "i \<noteq> 0"
        with i(3) have "\<exists>v. f ((r # rs) ! 0) = Inr v" by blast
        with Inl show False by simp
      qed
      with i Inl show "apply_rows f (r # rs) = Inl e" by simp
    qed
  next
    case (Inr v)
    have "(apply_rows f (r # rs) = Inl e) = (apply_rows f rs = Inl e)"
      using Inr by (simp split: sum.splits)
    also have "\<dots> = (\<exists>i<length rs. f (rs ! i) = Inl e \<and> (\<forall>j<i. \<exists>v. f (rs ! j) = Inr v))"
      by (rule Cons.IH)
    also have "\<dots> = (\<exists>i<length (r # rs). f ((r # rs) ! i) = Inl e \<and> (\<forall>j<i. \<exists>v. f ((r # rs) ! j) = Inr v))"
    proof
      assume "\<exists>i<length rs. f (rs ! i) = Inl e \<and> (\<forall>j<i. \<exists>v. f (rs ! j) = Inr v)"
      then obtain i where i: "i < length rs" "f (rs ! i) = Inl e" "\<forall>j<i. \<exists>v. f (rs ! j) = Inr v"
        by blast
      have "\<forall>j<Suc i. \<exists>v. f ((r # rs) ! j) = Inr v"
        using i(3) Inr by (auto simp: nth_Cons')
      with i show "\<exists>i<length (r # rs). f ((r # rs) ! i) = Inl e \<and> (\<forall>j<i. \<exists>v. f ((r # rs) ! j) = Inr v)"
        by (intro exI [of _ "Suc i"]) simp
    next
      assume "\<exists>i<length (r # rs). f ((r # rs) ! i) = Inl e \<and> (\<forall>j<i. \<exists>v. f ((r # rs) ! j) = Inr v)"
      then obtain i where i: "i < length (r # rs)" "f ((r # rs) ! i) = Inl e"
        "\<forall>j<i. \<exists>v. f ((r # rs) ! j) = Inr v" by blast
      from i(2) Inr obtain k where k: "i = Suc k" by (cases i) auto
      have "\<forall>j<k. \<exists>v. f (rs ! j) = Inr v"
      proof (intro allI impI)
        fix j assume "j < k"
        then have "Suc j < i" using k by simp
        with i(3) have "\<exists>v. f ((r # rs) ! Suc j) = Inr v" by blast
        then show "\<exists>v. f (rs ! j) = Inr v" by simp
      qed
      with i k show "\<exists>i<length rs. f (rs ! i) = Inl e \<and> (\<forall>j<i. \<exists>v. f (rs ! j) = Inr v)"
        by (intro exI [of _ k]) simp
    qed
    finally show ?thesis .
  qed
qed


lemma word_run_nonempty: "word_run_at t i \<Longrightarrow> sub_nondigits t \<noteq> []"
proof -
  assume w: "word_run_at t i"
  then have b: "i + 10 \<le> length t" and d: "list_all is_digit (take 10 (drop i t))"
    by (simp_all add: word_run_at_def)
  from run_nth [OF b d, of 0] have "is_digit (t ! i)" by simp
  moreover from b have "t ! i \<in> set t" by simp
  ultimately show ?thesis
    by (auto simp: sub_nondigits_def filter_empty_conv)
qed




section \<open>Properties of the code normalization\<close>






text \<open>
  Claim C5. \<open>normalize_code\<close> is idempotent: normalizing a result again returns it.
\<close>

theorem normalize_code_idempotent:
  "normalize_code (Some (normalize_code x)) = normalize_code x"
proof -
  have u: "normalize_code (Some ''UNKNOWN'') = ''UNKNOWN''" by code_simp
  from normalize_code_shape [of x] show ?thesis
  proof
    assume "normalize_code x = ''UNKNOWN''"
    then show ?thesis using u by simp
  next
    assume "normalize_code x \<noteq> [] \<and> list_all is_digit (normalize_code x) \<and>
      length (normalize_code x) \<le> 12"
    then show ?thesis by (simp add: normalize_code_digits)
  qed
qed

theorem normalize_code_idempotent_witness:
  "normalize_code (Some ''a1234567890 1'') = ''12345678901'' \<and>
   normalize_code (Some ''12345678901'') = ''12345678901''"
proof -
  have v: "normalize_code (Some ''a1234567890 1'') = ''12345678901''" by code_simp
  from normalize_code_idempotent [of "Some ''a1234567890 1''"] v show ?thesis by simp
qed



text \<open>
  Claim C7 says that a run of exactly ten digits between non-digit characters is returned
  whenever the length of the candidate is not accepted. In \<open>a1234567890 1\<close> the run at
  position 1 follows a letter: \<open>\b\<close> does not hold between a letter and a digit, the search
  finds nothing, and the result is the candidate of 11 digits.
\<close>

theorem digit_bounded_run_counterexample:
  "length (sub_nondigits ''a1234567890 1'') \<notin> {2, 4, 6, 8, 10} \<and>
   digit_run_at ''a1234567890 1'' 1 \<and>
   normalize_code (Some ''a1234567890 1'') = ''12345678901'' \<and>
   length (normalize_code (Some ''a1234567890 1'')) \<noteq> 10"
proof -
  have s: "sub_nondigits ''a1234567890 1'' = ''12345678901''" by code_simp
  have r: "digit_run_at ''a1234567890 1'' 1" by code_simp
  have v: "normalize_code (Some ''a1234567890 1'') = ''12345678901''" by code_simp
  from s r v show ?thesis by simp
qed

text \<open>
  Claim C7, amended. When the length of the digit-only candidate is none of 2, 4, 6, 8, 10
  and the text contains a run of exactly ten digits bounded on each side by a non-word
  character (neither letter, digit nor underscore) or by the end of the text, the result
  is such a run; \<open>The code is 3004909099.\<close> gives \<open>3004909099\<close>.
\<close>

theorem search_returns_word_bounded_run:
  assumes "length (sub_nondigits t) \<notin> {2, 4, 6, 8, 10}"
      and "word_run_at t i"
  shows "(\<exists>j. word_run_at t j \<and> normalize_code (Some t) = take 10 (drop j t)) \<and>
         normalize_code (Some ''The code is 3004909099.'') = ''3004909099''"
proof -
  from assms(2) have ne: "sub_nondigits t \<noteq> []" by (rule word_run_nonempty)
  from assms(2) have "search_10 t \<noteq> None"
    by (auto simp: search_10_None match_at_word_run)
  then obtain m where m: "search_10 t = Some m" by blast
  then obtain j where j: "match_at t j" "m = take 10 (drop j t)"
    using search_10_Some by blast
  from ne assms(1) m have "normalize_code (Some t) = m"
    by (simp add: normalize_code_Some)
  with j have "\<exists>j. word_run_at t j \<and> normalize_code (Some t) = take 10 (drop j t)"
    by (auto simp: match_at_word_run)
  moreover have "normalize_code (Some ''The code is 3004909099.'') = ''3004909099''"
    by code_simp
  ultimately show ?thesis by blast
qed

theorem search_returns_word_bounded_run_witness:
  "length (sub_nondigits ''TARIC 3004909099 (ch. 30)'') \<notin> {2, 4, 6, 8, 10} \<and>
   word_run_at ''TARIC 3004909099 (ch. 30)'' 6 \<and>
   (\<exists>j. word_run_at ''TARIC 3004909099 (ch. 30)'' j \<and>
        normalize_code (Some ''TARIC 3004909099 (ch. 30)'') =
          take 10 (drop j ''TARIC 3004909099 (ch. 30)''))"
proof -
  have s: "sub_nondigits ''TARIC 3004909099 (ch. 30)'' = ''300490909930''" by code_simp
  have h1: "length (sub_nondigits ''TARIC 3004909099 (ch. 30)'') \<notin> {2, 4, 6, 8, 10}"
    by (simp add: s)
  have h2: "word_run_at ''TARIC 3004909099 (ch. 30)'' 6" by code_simp
  from search_returns_word_bounded_run [OF h1 h2] h1 h2 show ?thesis by blast
qed

text \<open>
  Claim C10 says that the result is the leftmost run of exactly ten digits between
  non-digit characters. In \<open>a1234567890 0987654321\<close> the leftmost such run starts at
  position 1, after a letter; the search skips it and returns the second run.
\<close>

theorem leftmost_digit_run_counterexample:
  "length (sub_nondigits ''a1234567890 0987654321'') \<notin> {2, 4, 6, 8, 10} \<and>
   digit_run_at ''a1234567890 0987654321'' 1 \<and>
   \<not> digit_run_at ''a1234567890 0987654321'' 0 \<and>
   take 10 (drop 1 ''a1234567890 0987654321'') = ''1234567890'' \<and>
   normalize_code (Some ''a1234567890 0987654321'') = ''0987654321''"
proof -
  have s: "sub_nondigits ''a1234567890 0987654321'' = ''12345678900987654321''" by code_simp
  have r: "digit_run_at ''a1234567890 0987654321'' 1" by code_simp
  have n: "\<not> digit_run_at ''a1234567890 0987654321'' 0" by code_simp
  have v: "normalize_code (Some ''a1234567890 0987654321'') = ''0987654321''" by code_simp
  from s r n v show ?thesis by simp
qed

text \<open>
  Claim C10, amended. When the length of the digit-only candidate is none of 2, 4, 6, 8,
  10 and the text contains a run of exactly ten digits bounded on each side by a non-word
  character or by the end of the text, the result is the leftmost such run.
\<close>

theorem search_returns_leftmost_word_bounded_run:
  assumes "length (sub_nondigits t) \<notin> {2, 4, 6, 8, 10}"
      and "word_run_at t i"
  shows "\<exists>j\<le>i. word_run_at t j \<and> (\<forall>k<j. \<not> word_run_at t k) \<and>
           normalize_code (Some t) = take 10 (drop j t)"
proof -
  from assms(2) have ne: "sub_nondigits t \<noteq> []" by (rule word_run_nonempty)
  from assms(2) have "search_10 t \<noteq> None"
    by (auto simp: search_10_None match_at_word_run)
  then obtain m where m: "search_10 t = Some m" by blast
  then obtain j where j: "match_at t j" "\<forall>k<j. \<not> match_at t k" "m = take 10 (drop j t)"
    using search_10_Some by blast
  have "j \<le> i"
  proof (rule ccontr)
    assume "\<not> j \<le> i"
    then have "i < j" by simp
    with j(2) have "\<not> match_at t i" by blast
    with assms(2) show False by (simp add: match_at_word_run)
  qed
  moreover from ne assms(1) m have "normalize_code (Some t) = m"
    by (simp add: normalize_code_Some)
  ultimately show ?thesis using j by (auto simp: match_at_word_run)
qed

theorem search_returns_leftmost_word_bounded_run_witness:
  "length (sub_nondigits ''1: 3004909099 or 3004100000'') \<notin> {2, 4, 6, 8, 10} \<and>
   word_run_at ''1: 3004909099 or 3004100000'' 17 \<and>
   normalize_code (Some ''1: 3004909099 or 3004100000'') = ''3004909099'' \<and>
   (\<exists>j\<le>17. word_run_at ''1: 3004909099 or 3004100000'' j \<and>
        (\<forall>k<j. \<not> word_run_at ''1: 3004909099 or 3004100000'' k) \<and>
        normalize_code (Some ''1: 3004909099 or 3004100000'') =
          take 10 (drop j ''1: 3004909099 or 3004100000''))"
proof -
  have s: "sub_nondigits ''1: 3004909099 or 3004100000'' = ''130049090993004100000''"
    by code_simp
  have h1: "length (sub_nondigits ''1: 3004909099 or 3004100000'') \<notin> {2, 4, 6, 8, 10}"
    by (simp add: s)
  have h2: "word_run_at ''1: 3004909099 or 3004100000'' 17" by code_simp
  have v: "normalize_code (Some ''1: 3004909099 or 3004100000'') = ''3004909099''" by code_simp
  from search_returns_leftmost_word_bounded_run [OF h1 h2] h1 h2 v show ?thesis by blast
qed

text \<open>
  Claim C8. When the digit-only candidate has length 2, 4, 6, 8 or 10, the result is the
  candidate, unchanged: the loop over \<open>(10, 8, 6, 4, 2)\<close> is a membership test.
  \<open>1234567890\<close> gives \<open>1234567890\<close>.
\<close>

theorem accepted_length_passthrough:
  assumes "length (sub_nondigits t) \<in> {2, 4, 6, 8, 10}"
  shows "normalize_code (Some t) = sub_nondigits t \<and>
         normalize_code (Some ''1234567890'') = ''1234567890''"
proof -
  from assms have "sub_nondigits t \<noteq> []" by auto
  with assms have "normalize_code (Some t) = sub_nondigits t"
    by (simp add: normalize_code_Some)
  moreover have "normalize_code (Some ''1234567890'') = ''1234567890''" by code_simp
  ultimately show ?thesis by blast
qed

theorem accepted_length_passthrough_witness:
  "length (sub_nondigits ''3004.90.00'') \<in> {2, 4, 6, 8, 10} \<and>
   normalize_code (Some ''3004.90.00'') = ''30049000''"
proof -
  have s: "sub_nondigits ''3004.90.00'' = ''30049000''" by code_simp
  have h: "length (sub_nondigits ''3004.90.00'') \<in> {2, 4, 6, 8, 10}" by (simp add: s)
  from accepted_length_passthrough [OF h] h show ?thesis by (simp add: s)
qed

section \<open>Properties of the classification of products and tables\<close>

text \<open>
  Claim C3 says that a failure of the service on one row leaves the classification of the
  other rows in place. In the example table the calls for the rows 1 and 3 succeed and
  the call for row 2 fails; \<open>add_tullkod_column\<close> then returns no table at all, since
  neither \<open>_classify_row\<close> nor \<open>classify_product\<close> nor \<open>add_tullkod_column\<close> catches
  an exception.
\<close>

theorem batch_failure_counterexample:
  "classify_row example_service ''{}'' ''Name'' ''Desc'' ''Comp'' (rows example_frame ! 0)
     = Inr ''3004909099'' \<and>
   classify_row example_service ''{}'' ''Name'' ''Desc'' ''Comp'' (rows example_frame ! 1)
     = Inl () \<and>
   classify_row example_service ''{}'' ''Name'' ''Desc'' ''Comp'' (rows example_frame ! 2)
     = Inr ''3004909099'' \<and>
   add_tullkod_column example_service ''{}'' example_frame ''Name'' ''Desc'' ''Comp'' ''Tullkod''
     = Inl ()"
proof -
  have n: "normalize_code (Some ''3004909099'') = ''3004909099''" by code_simp
  show ?thesis
    by (simp add: add_tullkod_column_def example_frame_def classify_row_def classify_product_def
        classification_chain_def example_service_def row_get_def or_empty_def user_message_def n)
qed

text \<open>
  Claim C3, amended. In batch classification a failure of the completion-service call on
  one row ends \<open>add_tullkod_column\<close>: the exception of the first failing row reaches the
  caller and no output table is produced, whatever the calls for the other rows return.
\<close>

theorem batch_failure_propagates:
  assumes "i < length (rows df)"
      and "classify_row llm taric name_col desc_col comp_col (rows df ! i) = Inl e"
      and "\<forall>j<i. \<exists>v. classify_row llm taric name_col desc_col comp_col (rows df ! j) = Inr v"
  shows "add_tullkod_column llm taric df name_col desc_col comp_col output_col = Inl e"
proof -
  from assms have "apply_rows (classify_row llm taric name_col desc_col comp_col) (rows df) = Inl e"
    unfolding apply_rows_Inl by blast
  then show ?thesis by (simp add: add_tullkod_column_def)
qed

theorem batch_failure_propagates_witness:
  "1 < length (rows example_frame) \<and>
   classify_row example_service ''{}'' ''Name'' ''Desc'' ''Comp'' (rows example_frame ! 0)
     = Inr ''3004909099'' \<and>
   classify_row example_service ''{}'' ''Name'' ''Desc'' ''Comp'' (rows example_frame ! 1)
     = Inl () \<and>
   add_tullkod_column example_service ''{}'' example_frame ''Name'' ''Desc'' ''Comp''
     ''Customs code'' = Inl ()"
proof -
  have n: "normalize_code (Some ''3004909099'') = ''3004909099''" by code_simp
  have h1: "1 < length (rows example_frame)" by (simp add: example_frame_def)
  have h2: "classify_row example_service ''{}'' ''Name'' ''Desc'' ''Comp'' (rows example_frame ! 1)
      = Inl ()"
    by (simp add: example_frame_def classify_row_def classify_product_def
        classification_chain_def example_service_def row_get_def or_empty_def user_message_def)
  have h0: "classify_row example_service ''{}'' ''Name'' ''Desc'' ''Comp''
                 (rows example_frame ! 0) = Inr ''3004909099''"
    by (simp add: example_frame_def classify_row_def classify_product_def
        classification_chain_def example_service_def row_get_def or_empty_def user_message_def n)
  then have h3: "\<forall>j<1. \<exists>v. classify_row example_service ''{}'' ''Name'' ''Desc'' ''Comp''
                 (rows example_frame ! j) = Inr v"
    by simp
  from batch_failure_propagates [OF h1 h2 h3] h0 h1 h2 show ?thesis by blast
qed

text \<open>
  Claim C4 holds on the single-product path, where \<open>None\<close> and the empty text both
  contribute the empty text (second equation). On the batch path \<open>_classify_row\<close> applies
  \<open>str\<close> to the cell before \<open>classify_product\<close> sees it: an empty spreadsheet cell
  contributes the text \<open>nan\<close> and a \<open>None\<close> cell the text \<open>None\<close> (first equation),
  which \<open>or ""\<close> no longer replaces.
\<close>

theorem classify_row_missing_cell_payload:
  "classify_row llm taric ''Name'' ''Desc'' ''Comp''
     [''Name'' \<mapsto> CNaN, ''Desc'' \<mapsto> CNone, ''Comp'' \<mapsto> CStr []] =
   (case llm \<lparr>system = system_prompt,
              user = user_message \<lparr>json = taric, name = ''nan'', desc = ''None'', composition = []\<rparr>\<rparr> of
      Inl e \<Rightarrow> Inl e
    | Inr raw \<Rightarrow> Inr (normalize_code (Some raw))) \<and>
   classify_product llm taric None (Some []) None =
   (case llm \<lparr>system = system_prompt,
              user = user_message \<lparr>json = taric, name = [], desc = [], composition = []\<rparr>\<rparr> of
      Inl e \<Rightarrow> Inl e
    | Inr raw \<Rightarrow> Inr (normalize_code (Some raw)))"
  by (simp add: classify_row_def classify_product_def classification_chain_def row_get_def
      or_empty_def)



end
